theory Spec2Isabelle
  imports Complex_Main "HOL-Library.Word"
begin

unbundle bit_operations_syntax

section \<open>JavaScript strings\<close>

text \<open>
  A JavaScript string is a sequence of UTF-16 code units; a chunk read from a response
  body is a \<open>Uint8Array\<close>, a sequence of bytes.
\<close>

type_synonym byte = "8 word"
type_synonym code_unit = "16 word"
type_synonym jsstring = "code_unit list"

text \<open>The code units of an ASCII literal of the source.\<close>

definition utf16 :: "string \<Rightarrow> jsstring" where
  "utf16 s = map (\<lambda>c. of_nat (of_char c)) s"

text \<open>The bytes of an ASCII literal (its UTF-8 encoding).\<close>

definition ascii_bytes :: "string \<Rightarrow> byte list" where
  "ascii_bytes s = map (\<lambda>c. of_nat (of_char c)) s"

text \<open>
  \<open>String.prototype.trim\<close> removes WhiteSpace and LineTerminator code units from both
  ends (ECMA-262): TAB, LF, VT, FF, CR, SP, NBSP, U+1680, U+2000 to U+200A, U+2028, U+2029,
  U+202F, U+205F, U+3000 and U+FEFF.
\<close>

definition is_ws :: "code_unit \<Rightarrow> bool" where
  "is_ws c = (c = 0x09 \<or> c = 0x0A \<or> c = 0x0B \<or> c = 0x0C \<or> c = 0x0D \<or> c = 0x20 \<or>
              c = 0xA0 \<or> c = 0x1680 \<or> (0x2000 \<le> c \<and> c \<le> 0x200A) \<or>
              c = 0x2028 \<or> c = 0x2029 \<or> c = 0x202F \<or> c = 0x205F \<or> c = 0x3000 \<or>
              c = 0xFEFF)"

definition trim :: "jsstring \<Rightarrow> jsstring" where
  "trim s = rev (dropWhile is_ws (rev (dropWhile is_ws s)))"

text \<open>\<open>s.startsWith(p)\<close>.\<close>

definition startsWith :: "jsstring \<Rightarrow> jsstring \<Rightarrow> bool" where
  "startsWith s p = (take (length p) s = p)"

text \<open>\<open>s.indexOf(p)\<close>: the first position where \<open>p\<close> occurs; \<open>None\<close> is the source's -1.\<close>

fun indexOf :: "jsstring \<Rightarrow> jsstring \<Rightarrow> nat option" where
  "indexOf [] p = (if p = [] then Some 0 else None)"
| "indexOf (x # xs) p =
     (if startsWith (x # xs) p then Some 0 else map_option Suc (indexOf xs p))"

section \<open>The platform's streaming UTF-8 decoder\<close>

text \<open>
  \<open>new TextDecoder()\<close> followed by \<open>decoder.decode(value, { stream: true })\<close> is the
  UTF-8 decoder of the WHATWG Encoding Standard, which keeps its state between calls:
  the code point under construction, the continuation bytes seen and needed, the bounds
  for the next continuation byte, and whether the byte order mark was already looked for.
\<close>

record utf8_decoder =
  code_point :: nat
  bytes_seen :: nat
  bytes_needed :: nat
  lower_boundary :: byte
  upper_boundary :: byte
  bom_seen :: bool

definition new_TextDecoder :: utf8_decoder where
  "new_TextDecoder =
     \<lparr>code_point = 0, bytes_seen = 0, bytes_needed = 0,
      lower_boundary = 0x80, upper_boundary = 0xBF, bom_seen = False\<rparr>"

text \<open>The handler on a byte when no continuation byte is awaited.\<close>

definition utf8_lead :: "utf8_decoder \<Rightarrow> byte \<Rightarrow> utf8_decoder \<times> nat list" where
  "utf8_lead d b =
     (if b \<le> 0x7F then (d, [unat b])
      else if 0xC2 \<le> b \<and> b \<le> 0xDF then
        (d\<lparr>bytes_needed := 1, code_point := unat (b AND 0x1F)\<rparr>, [])
      else if 0xE0 \<le> b \<and> b \<le> 0xEF then
        (d\<lparr>lower_boundary := (if b = 0xE0 then 0xA0 else lower_boundary d),
           upper_boundary := (if b = 0xED then 0x9F else upper_boundary d),
           bytes_needed := 2, code_point := unat (b AND 0x0F)\<rparr>, [])
      else if 0xF0 \<le> b \<and> b \<le> 0xF4 then
        (d\<lparr>lower_boundary := (if b = 0xF0 then 0x90 else lower_boundary d),
           upper_boundary := (if b = 0xF4 then 0x8F else upper_boundary d),
           bytes_needed := 3, code_point := unat (b AND 0x07)\<rparr>, [])
      else (d, [0xFFFD]))"

text \<open>
  The handler on any byte. A byte outside the bounds while a continuation is awaited
  resets the decoder, yields U+FFFD and is then handled again as a leading byte.
\<close>

definition utf8_handler :: "utf8_decoder \<Rightarrow> byte \<Rightarrow> utf8_decoder \<times> nat list" where
  "utf8_handler d b =
     (if bytes_needed d = 0 then utf8_lead d b
      else if \<not> (lower_boundary d \<le> b \<and> b \<le> upper_boundary d) then
        (case utf8_lead (d\<lparr>code_point := 0, bytes_needed := 0, bytes_seen := 0,
                            lower_boundary := 0x80, upper_boundary := 0xBF\<rparr>) b of
           (d', out) \<Rightarrow> (d', 0xFFFD # out))
      else
        (let d1 = d\<lparr>lower_boundary := 0x80, upper_boundary := 0xBF,
                     code_point := code_point d * 64 + unat (b AND 0x3F),
                     bytes_seen := bytes_seen d + 1\<rparr>
         in if bytes_seen d1 \<noteq> bytes_needed d1 then (d1, [])
            else (d1\<lparr>code_point := 0, bytes_needed := 0, bytes_seen := 0\<rparr>,
                  [code_point d1])))"

text \<open>A scalar value as UTF-16 code units: a surrogate pair above U+FFFF.\<close>

definition code_units :: "nat \<Rightarrow> jsstring" where
  "code_units cp =
     (if cp < 0x10000 then [of_nat cp]
      else [of_nat (0xD800 + (cp - 0x10000) div 0x400),
            of_nat (0xDC00 + (cp - 0x10000) mod 0x400)])"

text \<open>
  Serialising the decoded scalar values: with \<open>ignoreBOM\<close> unset, the first scalar value
  of the stream is dropped when it is U+FEFF.
\<close>

fun serialize :: "bool \<Rightarrow> nat list \<Rightarrow> bool \<times> jsstring" where
  "serialize seen [] = (seen, [])"
| "serialize seen (cp # cps) =
     (if \<not> seen \<and> cp = 0xFEFF then serialize True cps
      else (case serialize True cps of (seen', out) \<Rightarrow> (seen', code_units cp @ out)))"

definition utf8_step :: "utf8_decoder \<Rightarrow> byte \<Rightarrow> utf8_decoder \<times> jsstring" where
  "utf8_step d b =
     (case utf8_handler d b of
        (d1, cps) \<Rightarrow>
          (case serialize (bom_seen d1) cps of
             (seen, out) \<Rightarrow> (d1\<lparr>bom_seen := seen\<rparr>, out)))"

text \<open>
  \<open>decoder.decode(value, { stream: true })\<close>: the bytes of the chunk go through the
  decoder one by one; an incomplete sequence at the end of the chunk stays in the state.
\<close>

fun decode :: "utf8_decoder \<Rightarrow> byte list \<Rightarrow> utf8_decoder \<times> jsstring" where
  "decode d [] = (d, [])"
| "decode d (b # bs) =
     (case utf8_step d b of
        (d1, out1) \<Rightarrow> (case decode d1 bs of (d2, out2) \<Rightarrow> (d2, out1 @ out2)))"

section \<open>The stream decoder of \<open>ragStream\<close> (lib/api.ts)\<close>

text \<open>The literals of the source: the frame separator, the marker and the sentinel.\<close>

definition sep :: jsstring where
  "sep = [0x0A, 0x0A]"

definition marker :: jsstring where
  "marker = utf16 ''data:''"

definition DONE :: jsstring where
  "DONE = utf16 ''[DONE]''"

text \<open>An error value carries the message of the JavaScript \<open>Error\<close>.\<close>

datatype error = Error (message: jsstring)

text \<open>A call \<open>onChunk(text, raw)\<close>: the two arguments.\<close>

type_synonym call = "jsstring \<times> jsstring"

lemma indexOf_bound: "indexOf s p = Some i \<Longrightarrow> i + length p \<le> length s"
proof (induction s arbitrary: i)
  case Nil
  then show ?case by (simp split: if_splits)
next
  case (Cons x xs)
  show ?case
  proof (cases "startsWith (x # xs) p")
    case True
    then have "length (take (length p) (x # xs)) = length p"
      unfolding startsWith_def by simp
    then have "length p \<le> length (x # xs)"
      unfolding length_take by linarith
    with True Cons.prems show ?thesis by simp
  next
    case False
    with Cons.prems obtain j where "indexOf xs p = Some j" "i = Suc j"
      by auto
    with Cons.IH show ?thesis by fastforce
  qed
qed

text \<open>
  The inner loop (lines 155 to 166): while the buffer holds a separator, cut the text
  before it, trim it, and deliver it unless it is empty; the sentinel returns from the
  whole function. The result is the calls made, the buffer left, and whether the
  function returned at the sentinel.
\<close>

function ragStream_drain :: "jsstring \<Rightarrow> call list \<times> jsstring \<times> bool" where
  "ragStream_drain buffer =
     (case indexOf buffer sep of
        None \<Rightarrow> ([], buffer, False)
      | Some idx \<Rightarrow>
          (let raw = trim (take idx buffer);
               buffer' = drop (idx + 2) buffer
           in if raw = [] then ragStream_drain buffer'
              else if startsWith raw marker then
                (let payload = trim (drop 5 raw)
                 in if payload = DONE then ([], buffer', True)
                    else (case ragStream_drain buffer' of
                            (calls, b, stop) \<Rightarrow> ((payload, raw) # calls, b, stop)))
              else (case ragStream_drain buffer' of
                      (calls, b, stop) \<Rightarrow> ((raw, raw) # calls, b, stop))))"
  by pat_completeness auto
termination
proof (relation "measure length")
  show "wf (measure length)" by simp
next
  fix buffer :: jsstring and idx raw buffer'
  assume "indexOf buffer sep = Some idx" and "buffer' = drop (idx + 2) buffer"
  then show "(buffer', buffer) \<in> measure length"
    using indexOf_bound [of buffer sep idx] by (simp add: sep_def)
next
  fix buffer :: jsstring and idx raw buffer' payload
  assume "indexOf buffer sep = Some idx" and "buffer' = drop (idx + 2) buffer"
  then show "(buffer', buffer) \<in> measure length"
    using indexOf_bound [of buffer sep idx] by (simp add: sep_def)
next
  fix buffer :: jsstring and idx raw buffer'
  assume "indexOf buffer sep = Some idx" and "buffer' = drop (idx + 2) buffer"
  then show "(buffer', buffer) \<in> measure length"
    using indexOf_bound [of buffer sep idx] by (simp add: sep_def)
qed

text \<open>
  The outer loop (lines 150 to 167) over the chunks the reader yields. The reader ends
  with \<open>done\<close> (\<open>None\<close>) or with a rejected read (\<open>Some e\<close>). The result is the calls
  made and the error thrown, if any.
\<close>

fun ragStream_loop ::
  "utf8_decoder \<Rightarrow> jsstring \<Rightarrow> byte list list \<Rightarrow> error option \<Rightarrow> call list \<times> error option"
where
  "ragStream_loop d buffer [] fin = ([], fin)"
| "ragStream_loop d buffer (v # rest) fin =
     (case decode d v of
        (d', text) \<Rightarrow>
          (case ragStream_drain (buffer @ text) of
             (calls, buffer', stop) \<Rightarrow>
               if stop then (calls, None)
               else (case ragStream_loop d' buffer' rest fin of
                       (calls', r) \<Rightarrow> (calls @ calls', r))))"

text \<open>Lines 147 to 167: a fresh decoder and an empty buffer.\<close>

definition ragStream_read :: "byte list list \<Rightarrow> error option \<Rightarrow> call list \<times> error option" where
  "ragStream_read chunks fin = ragStream_loop new_TextDecoder [] chunks fin"

section \<open>HTTP responses and the token store (lib/api.ts)\<close>

text \<open>
  JavaScript's truthiness of a string that may be absent: \<open>undefined\<close>, \<open>null\<close> and the
  empty string are falsy.
\<close>

definition truthy :: "jsstring option \<Rightarrow> bool" where
  "truthy v = (case v of None \<Rightarrow> False | Some t \<Rightarrow> t \<noteq> [])"

text \<open>A value of type \<open>any\<close> read from a JSON body.\<close>

datatype json =
  JNull | JBool bool | JNum real | JStr jsstring | JArr "json list" | JObj "(string \<times> json) list"

text \<open>
  What line 40, \<open>text ? JSON.parse(text) : {}\<close>, makes of a response body: it throws (with
  the message given), or it yields a value. \<open>Parsed detail data\<close> holds the string that
  \<open>data.detail || data.message\<close> gives when it is truthy, and the value read at the
  caller's type, \<open>None\<close> for \<open>null\<close>.
\<close>

datatype 'a parsed = Throws jsstring | Parsed "jsstring option" "'a option"

text \<open>
  A \<open>Response\<close>: \<open>body\<close> is the readable stream, given by the chunks the reader yields
  and by how the reading ends.
\<close>

record 'a response =
  status :: nat
  statusText :: jsstring
  json :: "'a parsed"
  body :: "(byte list list \<times> error option) option"

definition ok :: "'a response \<Rightarrow> bool" where
  "ok res = (200 \<le> status res \<and> status res \<le> 299)"

record 'b request =
  url :: string
  http_method :: string
  headers :: "string \<rightharpoonup> jsstring"
  content :: "'b option"

record AuthUser =
  au_id :: jsstring
  au_email :: jsstring
  au_username :: jsstring
  au_role :: "jsstring option"
  au_llm_provider :: "jsstring option"
  au_llm_model :: "jsstring option"

text \<open>
  The state of the session: whether \<open>localStorage\<close> can be reached (every access throws
  when it cannot), its entry \<open>access_token\<close>, and the \<open>token\<close> and \<open>user\<close> of the
  \<open>AuthProvider\<close>.
\<close>

record auth =
  storage_ok :: bool
  stored :: "jsstring option"
  token :: "jsstring option"
  user :: "AuthUser option"

definition getToken :: "auth \<Rightarrow> jsstring option" where
  "getToken s = (if storage_ok s then stored s else None)"

definition setToken :: "jsstring option \<Rightarrow> auth \<Rightarrow> auth" where
  "setToken t s =
     (if storage_ok s then (if truthy t then s\<lparr>stored := t\<rparr> else s\<lparr>stored := None\<rparr>)
      else s)"

definition authHeaders :: "(string \<rightharpoonup> jsstring) \<Rightarrow> auth \<Rightarrow> (string \<rightharpoonup> jsstring)" where
  "authHeaders extra s =
     (case getToken s of
        None \<Rightarrow> extra
      | Some t \<Rightarrow> if t \<noteq> [] then extra(''Authorization'' \<mapsto> utf16 ''Bearer '' @ t) else extra)"

definition handleJsonResponse :: "'a response \<Rightarrow> error + 'a option" where
  "handleJsonResponse res =
     (case json res of
        Throws m \<Rightarrow> Inl (Error m)
      | Parsed detail data \<Rightarrow>
          if \<not> ok res then
            Inl (Error (case detail of Some d \<Rightarrow> d | None \<Rightarrow> statusText res))
          else Inr data)"

text \<open>The engine's TypeError on reading a property of \<open>null\<close>.\<close>

definition null_error :: error where
  "null_error = Error (utf16 ''Cannot read properties of null'')"

record login_params =
  email :: jsstring
  password :: jsstring

record auth_data =
  access_token :: "jsstring option"
  data_user :: "AuthUser option"

text \<open>
  \<open>login\<close> of lib/api.ts (lines 48 to 60), over the \<open>fetch\<close> in force when it is called.
  The paths are relative to \<open>API_BASE_URL\<close>.
\<close>

definition api_login ::
  "(login_params request \<Rightarrow> auth \<Rightarrow> (error + auth_data response) \<times> auth) \<Rightarrow>
   login_params \<Rightarrow> auth \<Rightarrow> (error + auth_data) \<times> auth"
where
  "api_login fetch params s =
     (case fetch \<lparr>url = ''/auth/login'', http_method = ''POST'',
                  headers = [''Content-Type'' \<mapsto> utf16 ''application/json''],
                  content = Some params\<rparr> s of
        (Inl e, s1) \<Rightarrow> (Inl e, s1)
      | (Inr res, s1) \<Rightarrow>
          (case handleJsonResponse res of
             Inl e \<Rightarrow> (Inl e, s1)
           | Inr None \<Rightarrow> (Inl null_error, s1)
           | Inr (Some data) \<Rightarrow> (Inr data, setToken (access_token data) s1)))"

subsection \<open>The two query functions\<close>

record rag_payload =
  p_query :: jsstring
  max_chunks :: real
  score_threshold :: real
  p_temperature :: real
  max_tokens :: real
  include_sources :: bool
  session_id :: "jsstring option"

text \<open>The fields \<open>send\<close> reads of the result of \<open>ragQuery\<close>.\<close>

record rag_result =
  res_response :: "jsstring option"
  res_processing_time_ms :: "real option"
  res_total_tokens :: "real option"
  context_documents :: "json list option"

text \<open>\<open>String(n)\<close> for a natural number: its decimal digits.\<close>

fun decimal :: "nat \<Rightarrow> jsstring" where
  "decimal n =
     (if n < 10 then [of_nat (48 + n)]
      else decimal (n div 10) @ [of_nat (48 + n mod 10)])"

declare decimal.simps [simp del]

text \<open>
  \<open>ragQuery\<close> (lines 110 to 125) and \<open>ragStream\<close> (lines 127 to 168), over the \<open>fetch\<close>
  in force when they are called.
\<close>

definition ragQuery ::
  "(rag_payload request \<Rightarrow> auth \<Rightarrow> (error + rag_result response) \<times> auth) \<Rightarrow>
   rag_payload \<Rightarrow> auth \<Rightarrow> (error + rag_result option) \<times> auth"
where
  "ragQuery fetch payload s =
     (case fetch \<lparr>url = ''/queries/rag'', http_method = ''POST'',
                  headers = authHeaders [''Content-Type'' \<mapsto> utf16 ''application/json''] s,
                  content = Some payload\<rparr> s of
        (Inl e, s1) \<Rightarrow> (Inl e, s1)
      | (Inr res, s1) \<Rightarrow> (handleJsonResponse res, s1))"

definition ragStream ::
  "(rag_payload request \<Rightarrow> auth \<Rightarrow> (error + 'a response) \<times> auth) \<Rightarrow>
   rag_payload \<Rightarrow> auth \<Rightarrow> (call list \<times> error option) \<times> auth"
where
  "ragStream fetch payload s =
     (case fetch \<lparr>url = ''/queries/rag/stream'', http_method = ''POST'',
                  headers = authHeaders [''Content-Type'' \<mapsto> utf16 ''application/json''] s,
                  content = Some payload\<rparr> s of
        (Inl e, s1) \<Rightarrow> (([], Some e), s1)
      | (Inr res, s1) \<Rightarrow>
          (case (if ok res then body res else None) of
             None \<Rightarrow>
               (([], Some (Error (utf16 ''Streaming failed: '' @ decimal (status res) @
                                  utf16 '' '' @ statusText res))), s1)
           | Some (chunks, fin) \<Rightarrow> (ragStream_read chunks fin, s1)))"

section \<open>The session (context/AuthContext)\<close>

definition logout :: "auth \<Rightarrow> auth" where
  "logout s = (setToken None s)\<lparr>token := None, user := None\<rparr>"

text \<open>
  The wrapper the provider installs as \<open>window.fetch\<close> (lines 53 to 64): \<open>orig\<close> is the
  \<open>fetch\<close> it replaces, which rejects (\<open>Inl\<close>) or resolves to a response.
\<close>

definition intercepted_fetch ::
  "('i \<Rightarrow> error + 'a response) \<Rightarrow> 'i \<Rightarrow> auth \<Rightarrow> (error + 'a response) \<times> auth"
where
  "intercepted_fetch orig input s =
     (case orig input of
        Inl e \<Rightarrow> (Inl e, s)
      | Inr res \<Rightarrow> (Inr res, if status res = 401 then logout s else s))"

text \<open>
  \<open>login\<close> of the provider (lines 27 to 37). The result is what the promise settles to:
  \<open>Inl\<close> would be a rejection.
\<close>

definition login ::
  "(login_params request \<Rightarrow> error + auth_data response) \<Rightarrow> login_params \<Rightarrow> auth \<Rightarrow>
   (error + bool) \<times> auth"
where
  "login orig args s =
     (case api_login (intercepted_fetch orig) args s of
        (Inl e, s1) \<Rightarrow> (Inr False, s1)
      | (Inr res, s1) \<Rightarrow>
          if \<not> truthy (access_token res) then (Inr False, s1)
          else (Inr True, s1\<lparr>token := access_token res, user := data_user res\<rparr>))"

section \<open>The chat page (pages/Chat)\<close>

datatype role = User | Assistant

record meta =
  processing_time_ms :: "real option"
  total_tokens :: "real option"
  sources :: "json list option"

record message =
  msg_id :: jsstring
  role :: role
  msg_text :: jsstring
  createdAt :: jsstring
  meta :: "meta option"

text \<open>The object literal \<open>{}\<close> as a \<open>meta\<close>.\<close>

definition empty_meta :: meta where
  "empty_meta = \<lparr>processing_time_ms = None, total_tokens = None, sources = None\<rparr>"

record chat =
  messages :: "message list"
  query :: jsstring
  loading :: bool
  stream :: bool
  includeSources :: bool
  maxChunks :: real
  temperature :: real
  scoreThreshold :: real
  maxTokens :: real
  sessionId :: "jsstring option"
  hydrating :: bool

subsection \<open>Hydration from the history\<close>

text \<open>
  A record of the history as the effect reads it: \<open>q_id\<close> is \<open>String(q.id)\<close>; a field
  the record lacks is \<open>None\<close>.
\<close>

record query_response =
  response_text :: "jsstring option"
  generated_at :: "jsstring option"
  context_chunks :: "json list option"

record query_item =
  q_id :: jsstring
  query_text :: jsstring
  created_at :: "jsstring option"
  q_processing_time_ms :: "real option"
  q_total_tokens :: "real option"
  response :: "query_response option"

text \<open>\<open>a || b\<close> on strings that may be absent.\<close>

definition or_else :: "jsstring option \<Rightarrow> jsstring \<Rightarrow> jsstring" where
  "or_else a b = (case a of None \<Rightarrow> b | Some t \<Rightarrow> if t \<noteq> [] then t else b)"

text \<open>\<open>q.response?.response_text\<close>, \<open>q.response?.context_chunks\<close>.\<close>

definition q_response_text :: "query_item \<Rightarrow> jsstring option" where
  "q_response_text q = (case response q of None \<Rightarrow> None | Some r \<Rightarrow> response_text r)"

definition q_context_chunks :: "query_item \<Rightarrow> json list option" where
  "q_context_chunks q = (case response q of None \<Rightarrow> None | Some r \<Rightarrow> context_chunks r)"

definition q_generated_at :: "query_item \<Rightarrow> jsstring option" where
  "q_generated_at q = (case response q of None \<Rightarrow> None | Some r \<Rightarrow> generated_at r)"

text \<open>
  One turn of the loop of lines 56 to 61, pushing onto \<open>hydrated\<close>; \<open>now\<close> is
  \<open>new Date().toISOString()\<close>, one reading of the clock for the whole hydration.
\<close>

definition hydrate_push :: "jsstring \<Rightarrow> message list \<Rightarrow> query_item \<Rightarrow> message list" where
  "hydrate_push now hydrated q =
     (let hydrated1 = hydrated @
            [\<lparr>msg_id = q_id q @ utf16 '':u'', role = User, msg_text = query_text q,
              createdAt = or_else (created_at q) now, meta = None\<rparr>]
      in case q_response_text q of
           None \<Rightarrow> hydrated1
         | Some t \<Rightarrow>
             if t \<noteq> [] then
               hydrated1 @
                 [\<lparr>msg_id = q_id q @ utf16 '':a'', role = Assistant, msg_text = t,
                   createdAt = or_else (q_generated_at q) (or_else (created_at q) now),
                   meta = Some \<lparr>processing_time_ms = q_processing_time_ms q,
                                total_tokens = q_total_tokens q,
                                sources = q_context_chunks q\<rparr>\<rparr>]
             else hydrated1)"

text \<open>Lines 54 to 61: \<open>queries\<close> is \<open>hist?.queries || []\<close>, newest first.\<close>

definition hydrate :: "jsstring \<Rightarrow> query_item list \<Rightarrow> message list" where
  "hydrate now queries = foldl (hydrate_push now) [] (rev queries)"

text \<open>
  The effect of lines 48 to 69, given what \<open>queryHistory(0, 50, sessionId)\<close> settles to.
\<close>

definition hydration :: "(error + query_item list) \<Rightarrow> jsstring \<Rightarrow> chat \<Rightarrow> chat" where
  "hydration hist now s =
     (if \<not> truthy (sessionId s) then s
      else
        (case hist of
           Inl e \<Rightarrow> s\<lparr>hydrating := False\<rparr>
         | Inr queries \<Rightarrow>
             (let hydrated = hydrate now queries
              in (if hydrated \<noteq> [] then s\<lparr>messages := hydrated\<rparr> else s)
                   \<lparr>hydrating := False\<rparr>)))"

text \<open>
  The reconciler in the words of the specification: the messages of one record, a user
  message, followed by an assistant message when the record has a response text.
\<close>

definition record_messages :: "jsstring \<Rightarrow> query_item \<Rightarrow> message list" where
  "record_messages now q =
     \<lparr>msg_id = q_id q @ utf16 '':u'', role = User, msg_text = query_text q,
      createdAt = or_else (created_at q) now, meta = None\<rparr> #
     (if truthy (q_response_text q) then
        [\<lparr>msg_id = q_id q @ utf16 '':a'', role = Assistant,
          msg_text = or_else (q_response_text q) [],
          createdAt = or_else (q_generated_at q) (or_else (created_at q) now),
          meta = Some \<lparr>processing_time_ms = q_processing_time_ms q,
                       total_tokens = q_total_tokens q,
                       sources = q_context_chunks q\<rparr>\<rparr>]
      else [])"

subsection \<open>Sending\<close>

text \<open>
  What the two functions of lib/api.ts do when \<open>send\<close> calls them: \<open>ragStream\<close> makes
  its calls of the callback and then returns or throws; \<open>ragQuery\<close> throws or returns
  the parsed body (\<open>None\<close> for \<open>null\<close>).
\<close>

record api =
  ragStream_api :: "rag_payload \<Rightarrow> call list \<times> error option"
  ragQuery_api :: "rag_payload \<Rightarrow> error + rag_result option"

datatype api_call = RagStream rag_payload | RagQuery rag_payload

text \<open>
  What a send takes from outside: the two \<open>crypto.randomUUID()\<close>, the two readings of the
  clock, and \<open>Math.round(performance.now() - start)\<close>.
\<close>

record env =
  uuid_user :: jsstring
  uuid_assistant :: jsstring
  now_user :: jsstring
  now_assistant :: jsstring
  elapsed :: real

definition disableSubmit :: "chat \<Rightarrow> bool" where
  "disableSubmit s = (trim (query s) = [] \<or> loading s)"

text \<open>Lines 75 to 89: up to the first \<open>await\<close>.\<close>

definition send_begin :: "env \<Rightarrow> chat \<Rightarrow> chat \<times> rag_payload" where
  "send_begin e s =
     (let userMsg = \<lparr>msg_id = uuid_user e, role = User, msg_text = query s,
                     createdAt = now_user e, meta = None\<rparr>;
          assistantMsg = \<lparr>msg_id = uuid_assistant e, role = Assistant, msg_text = [],
                          createdAt = now_assistant e, meta = Some empty_meta\<rparr>
      in (s\<lparr>loading := True, messages := messages s @ [userMsg, assistantMsg], query := []\<rparr>,
          \<lparr>p_query = msg_text userMsg, max_chunks = maxChunks s,
           score_threshold = scoreThreshold s, p_temperature = temperature s,
           max_tokens = maxTokens s, include_sources = includeSources s,
           session_id = (if truthy (sessionId s) then sessionId s else None)\<rparr>))"

text \<open>The state updaters of lines 95, 99, 102 and 104, on the list \<open>prev\<close>.\<close>

definition on_chunk :: "jsstring \<Rightarrow> jsstring \<Rightarrow> message list \<Rightarrow> message list" where
  "on_chunk aid chunk prev =
     map (\<lambda>msg. if msg_id msg = aid then msg\<lparr>msg_text := msg_text msg @ chunk\<rparr> else msg) prev"

definition on_result :: "jsstring \<Rightarrow> rag_result \<Rightarrow> message list \<Rightarrow> message list" where
  "on_result aid res prev =
     map (\<lambda>msg. if msg_id msg = aid then
                  msg\<lparr>msg_text := or_else (res_response res) [],
                      meta := Some \<lparr>processing_time_ms = res_processing_time_ms res,
                                   total_tokens = res_total_tokens res,
                                   sources = context_documents res\<rparr>\<rparr>
                else msg) prev"

text \<open>\<open>(msg.meta?.processing_time_ms ?? 0) || ms\<close>.\<close>

definition time_or :: "meta option \<Rightarrow> real \<Rightarrow> real" where
  "time_or m ms =
     (let t = (case m of None \<Rightarrow> 0
               | Some mt \<Rightarrow> (case processing_time_ms mt of None \<Rightarrow> 0 | Some v \<Rightarrow> v))
      in if t \<noteq> 0 then t else ms)"

definition on_settle :: "jsstring \<Rightarrow> real \<Rightarrow> message list \<Rightarrow> message list" where
  "on_settle aid ms prev =
     map (\<lambda>msg. if msg_id msg = aid then
                  msg\<lparr>meta := Some ((case meta msg of None \<Rightarrow> empty_meta | Some mt \<Rightarrow> mt)
                                     \<lparr>processing_time_ms := Some (time_or (meta msg) ms)\<rparr>)\<rparr>
                else msg) prev"

definition on_error :: "jsstring \<Rightarrow> error \<Rightarrow> message list \<Rightarrow> message list" where
  "on_error aid e prev =
     map (\<lambda>msg. if msg_id msg = aid then
                  msg\<lparr>msg_text := utf16 ''Error: '' @
                                   (if message e \<noteq> [] then message e
                                    else utf16 ''Failed to generate'')\<rparr>
                else msg) prev"

text \<open>
  \<open>send\<close> (lines 73 to 108): the state it leaves and the calls of the API it made.
  \<open>Inl\<close> is an exception that escapes \<open>send\<close>'s own \<open>try\<close>: a \<open>null\<close> result of
  \<open>ragQuery\<close> makes the updater of line 99 throw while it runs.
\<close>

definition send :: "api \<Rightarrow> env \<Rightarrow> chat \<Rightarrow> (error + chat) \<times> api_call list" where
  "send a e s =
     (if disableSubmit s then (Inr s, [])
      else
        (case send_begin e s of
           (s1, payload) \<Rightarrow>
             if stream s then
               (case ragStream_api a payload of
                  (calls, thrown) \<Rightarrow>
                    (let m1 = foldl (\<lambda>prev c. on_chunk (uuid_assistant e) (fst c) prev)
                                (messages s1) calls;
                         m2 = (case thrown of
                                 None \<Rightarrow> on_settle (uuid_assistant e) (elapsed e) m1
                               | Some err \<Rightarrow> on_error (uuid_assistant e) err m1)
                     in (Inr (s1\<lparr>messages := m2, loading := False\<rparr>), [RagStream payload])))
             else
               (case ragQuery_api a payload of
                  Inl err \<Rightarrow>
                    (Inr (s1\<lparr>messages := on_error (uuid_assistant e) err (messages s1),
                              loading := False\<rparr>), [RagQuery payload])
                | Inr None \<Rightarrow> (Inl null_error, [RagQuery payload])
                | Inr (Some res) \<Rightarrow>
                    (Inr (s1\<lparr>messages := on_settle (uuid_assistant e) (elapsed e)
                                            (on_result (uuid_assistant e) res (messages s1)),
                              loading := False\<rparr>), [RagQuery payload]))))"

section \<open>Notions used in the statements\<close>

text \<open>The ids of the messages of one record: the record's id with a role suffix.\<close>

definition record_ids :: "query_item \<Rightarrow> jsstring list" where
  "record_ids q =
     (q_id q @ utf16 '':u'') #
     (if truthy (q_response_text q) then [q_id q @ utf16 '':a''] else [])"

text \<open>A message without its time stamp.\<close>

definition undated_view :: "message \<Rightarrow> jsstring \<times> role \<times> jsstring \<times> meta option" where
  "undated_view m = (msg_id m, role m, msg_text m, meta m)"

text \<open>
  The processing time to record: the one the server reported when it reported one other
  than zero, the elapsed time measured by the client otherwise.
\<close>

definition server_time_or :: "real option \<Rightarrow> real \<Rightarrow> real" where
  "server_time_or reported ms =
     (case reported of None \<Rightarrow> ms | Some p \<Rightarrow> if p \<noteq> 0 then p else ms)"


section \<open>Concrete sessions and responses for the examples\<close>

definition user1 :: AuthUser where
  "user1 = \<lparr>au_id = utf16 ''u1'', au_email = utf16 ''a@b.com'', au_username = utf16 ''a'',
             au_role = None, au_llm_provider = None, au_llm_model = None\<rparr>"

definition signed_in :: auth where
  "signed_in = \<lparr>storage_ok = True, stored = Some (utf16 ''tok0''),
                 token = Some (utf16 ''tok0''), user = Some user1\<rparr>"

definition signed_out :: auth where
  "signed_out = \<lparr>storage_ok = True, stored = None, token = None, user = None\<rparr>"

definition creds :: login_params where
  "creds = \<lparr>email = utf16 ''a@b.com'', password = utf16 ''pw''\<rparr>"

definition respond :: "nat \<Rightarrow> 'a parsed \<Rightarrow> 'i \<Rightarrow> error + 'a response" where
  "respond st js input = Inr \<lparr>status = st, statusText = [], json = js, body = None\<rparr>"

definition unauthorized :: "auth_data response" where
  "unauthorized = \<lparr>status = 401, statusText = [], json = Parsed None None, body = None\<rparr>"

definition login_request :: "login_params \<Rightarrow> login_params request" where
  "login_request params =
     \<lparr>url = ''/auth/login'', http_method = ''POST'',
      headers = [''Content-Type'' \<mapsto> utf16 ''application/json''], content = Some params\<rparr>"

definition tok1_data :: auth_data where
  "tok1_data = \<lparr>access_token = Some (utf16 ''tok1''), data_user = Some user1\<rparr>"

definition idle_chat :: chat where
  "idle_chat =
     \<lparr>messages = [], query = utf16 ''hi'', loading = False, stream = False,
      includeSources = True, maxChunks = 5, temperature = 7 / 10, scoreThreshold = 3 / 10,
      maxTokens = 1000, sessionId = Some (utf16 ''s1''), hydrating = False\<rparr>"

definition streaming_chat :: chat where
  "streaming_chat = idle_chat\<lparr>stream := True\<rparr>"

definition blank_chat :: chat where
  "blank_chat = idle_chat\<lparr>query := [0x20, 0x09, 0x0A, 0xA0]\<rparr>"

definition env1 :: env where
  "env1 = \<lparr>uuid_user = utf16 ''id-u'', uuid_assistant = utf16 ''id-a'',
            now_user = utf16 ''t1'', now_assistant = utf16 ''t2'', elapsed = 5\<rparr>"

definition busy_chat :: chat where
  "busy_chat = fst (send_begin env1 idle_chat)"

definition result0 :: rag_result where
  "result0 = \<lparr>res_response = Some (utf16 ''ok''), res_processing_time_ms = Some 0,
               res_total_tokens = Some 42, context_documents = Some []\<rparr>"

definition result1 :: rag_result where
  "result1 = \<lparr>res_response = Some (utf16 ''ok''), res_processing_time_ms = Some 150,
               res_total_tokens = Some 42, context_documents = Some []\<rparr>"

definition foo_bar :: "byte list list" where
  "foo_bar = [ascii_bytes (''data: foo'' @ [CHR 0x0A, CHR 0x0A]),
              ascii_bytes (''data: bar'' @ [CHR 0x0A, CHR 0x0A]),
              ascii_bytes (''data: [DONE]'' @ [CHR 0x0A, CHR 0x0A])]"

definition a_done_b :: "byte list list" where
  "a_done_b = [ascii_bytes (''data: a'' @ [CHR 0x0A, CHR 0x0A] @ ''data: [DO''),
               ascii_bytes (''NE]'' @ [CHR 0x0A, CHR 0x0A] @ ''data: b'' @ [CHR 0x0A, CHR 0x0A]),
               ascii_bytes (''data: c'' @ [CHR 0x0A, CHR 0x0A])]"

definition api0 :: api where
  "api0 = \<lparr>ragStream_api = (\<lambda>p. ragStream_read foo_bar None),
            ragQuery_api = (\<lambda>p. Inr (Some result0))\<rparr>"

definition api1 :: api where
  "api1 = \<lparr>ragStream_api = (\<lambda>p. ragStream_read foo_bar None),
            ragQuery_api = (\<lambda>p. Inr (Some result1))\<rparr>"

definition answered :: query_item where
  "answered =
     \<lparr>q_id = utf16 ''7'', query_text = utf16 ''why'', created_at = Some (utf16 ''d1''),
      q_processing_time_ms = Some 150, q_total_tokens = Some 42,
      response = Some \<lparr>response_text = Some (utf16 ''because''),
                       generated_at = Some (utf16 ''d2''), context_chunks = Some []\<rparr>\<rparr>"

definition pending :: query_item where
  "pending =
     \<lparr>q_id = utf16 ''8'', query_text = utf16 ''how'', created_at = Some (utf16 ''d3''),
      q_processing_time_ms = None, q_total_tokens = None, response = None\<rparr>"

definition empty_answer :: query_item where
  "empty_answer =
     \<lparr>q_id = utf16 ''9'', query_text = utf16 ''who'', created_at = Some (utf16 ''d4''),
      q_processing_time_ms = Some 10, q_total_tokens = Some 0,
      response = Some \<lparr>response_text = Some [], generated_at = Some (utf16 ''d5''),
                       context_chunks = Some []\<rparr>\<rparr>"

definition undated :: query_item where
  "undated =
     \<lparr>q_id = utf16 ''5'', query_text = utf16 ''when'', created_at = None,
      q_processing_time_ms = None, q_total_tokens = None, response = None\<rparr>"

section \<open>Properties of the stream decoder\<close>

declare ragStream_drain.simps [simp del]

lemma decode_append:
  "decode d (a @ b) =
     (case decode d a of (d1, o1) \<Rightarrow> (case decode d1 b of (d2, o2) \<Rightarrow> (d2, o1 @ o2)))"
  by (induction a arbitrary: d) (auto split: prod.splits)

lemma startsWith_append:
  "length p \<le> length a \<Longrightarrow> startsWith (a @ b) p = startsWith a p"
  by (simp add: startsWith_def)

lemma startsWith_length: "startsWith a p \<Longrightarrow> length p \<le> length a"
proof -
  assume "startsWith a p"
  then have "length (take (length p) a) = length p"
    unfolding startsWith_def by simp
  then show ?thesis unfolding length_take by linarith
qed

lemma indexOf_append:
  "indexOf a p = Some i \<Longrightarrow> indexOf (a @ b) p = Some i"
proof (induction a arbitrary: i)
  case Nil
  then show ?case by (cases b) (auto simp: startsWith_def split: if_splits)
next
  case (Cons x xs)
  show ?case
  proof (cases "startsWith (x # xs) p")
    case True
    then have "startsWith ((x # xs) @ b) p"
      using startsWith_append [of p "x # xs" b] startsWith_length [of "x # xs" p] by simp
    with True Cons.prems show ?thesis by simp
  next
    case False
    with Cons.prems obtain j where j: "indexOf xs p = Some j" "i = Suc j"
      by auto
    then have "length p \<le> length (x # xs)"
      using indexOf_bound [of xs p j] by simp
    with False have "\<not> startsWith ((x # xs) @ b) p"
      using startsWith_append [of p "x # xs" b] by simp
    with j Cons.IH [of j] show ?thesis by simp
  qed
qed

lemma drain_None: "indexOf buffer sep = None \<Longrightarrow> ragStream_drain buffer = ([], buffer, False)"
  by (simp add: ragStream_drain.simps)

lemma drain_append:
  "ragStream_drain (a @ b) =
     (case ragStream_drain a of
        (cs, r, stop) \<Rightarrow>
          if stop then (cs, r @ b, True)
          else (case ragStream_drain (r @ b) of (cs', r', s') \<Rightarrow> (cs @ cs', r', s')))"
proof (induction a rule: ragStream_drain.induct)
  case (1 buffer)
  show ?case
  proof (cases "indexOf buffer sep")
    case None
    then show ?thesis by (simp add: drain_None split: prod.splits)
  next
    case (Some idx)
    then have len: "idx + 2 \<le> length buffer"
      using indexOf_bound [of buffer sep idx] by (simp add: sep_def)
    have ix: "indexOf (buffer @ b) sep = Some idx"
      using Some by (rule indexOf_append)
    have tk: "take idx (buffer @ b) = take idx buffer"
      using len by simp
    have dr: "drop (idx + 2) (buffer @ b) = drop (idx + 2) buffer @ b"
      using len by simp
    define raw where "raw = trim (take idx buffer)"
    define buffer' where "buffer' = drop (idx + 2) buffer"
    note IH = "1.IH" [OF Some raw_def buffer'_def]
    have L: "ragStream_drain (buffer @ b) =
      (if raw = [] then ragStream_drain (buffer' @ b)
       else if startsWith raw marker then
         (if trim (drop 5 raw) = DONE then ([], buffer' @ b, True)
          else (case ragStream_drain (buffer' @ b) of
                  (calls, r, stop) \<Rightarrow> ((trim (drop 5 raw), raw) # calls, r, stop)))
       else (case ragStream_drain (buffer' @ b) of
               (calls, r, stop) \<Rightarrow> ((raw, raw) # calls, r, stop)))"
      by (subst ragStream_drain.simps) (simp only: ix tk dr option.case Let_def raw_def buffer'_def)
    have R: "ragStream_drain buffer =
      (if raw = [] then ragStream_drain buffer'
       else if startsWith raw marker then
         (if trim (drop 5 raw) = DONE then ([], buffer', True)
          else (case ragStream_drain buffer' of
                  (calls, r, stop) \<Rightarrow> ((trim (drop 5 raw), raw) # calls, r, stop)))
       else (case ragStream_drain buffer' of
               (calls, r, stop) \<Rightarrow> ((raw, raw) # calls, r, stop)))"
      by (subst ragStream_drain.simps) (simp only: Some option.case Let_def raw_def buffer'_def)
    show ?thesis
    proof (cases "raw = []")
      case True
      with IH(1) L R show ?thesis by simp
    next
      case False
      note ne = this
      show ?thesis
      proof (cases "startsWith raw marker")
        case True
        show ?thesis
        proof (cases "trim (drop 5 raw) = DONE")
          case True
          with ne \<open>startsWith raw marker\<close> L R show ?thesis by simp
        next
          case False
          from IH(2) [OF ne True refl False] ne True False L R show ?thesis
            by (simp split: prod.splits)
        qed
      next
        case False
        from IH(3) [OF ne False] ne False L R show ?thesis
          by (simp split: prod.splits)
      qed
    qed
  qed
qed

lemma drain_rest:
  "ragStream_drain a = (cs, r, False) \<Longrightarrow> ragStream_drain r = ([], r, False)"
proof (induction a arbitrary: cs rule: ragStream_drain.induct)
  case (1 buffer)
  show ?case
  proof (cases "indexOf buffer sep")
    case None
    with "1.prems" show ?thesis by (simp add: drain_None)
  next
    case (Some idx)
    note IH = "1.IH" [OF Some refl refl]
    from "1.prems" show ?thesis
      apply (subst (asm) ragStream_drain.simps [of buffer])
      using IH
      apply (auto simp add: Some Let_def split: prod.splits if_splits)
      done
  qed
qed

lemma loop_concat:
  "ragStream_drain buffer = ([], buffer, False) \<Longrightarrow>
   ragStream_loop d buffer chunks fin =
     (case decode d (concat chunks) of
        (d', text) \<Rightarrow>
          (case ragStream_drain (buffer @ text) of
             (cs, r, stop) \<Rightarrow> (cs, if stop then None else fin)))"
proof (induction chunks arbitrary: d buffer)
  case Nil
  then show ?case by simp
next
  case (Cons v rest)
  obtain d1 t1 where d1: "decode d v = (d1, t1)" by (cases "decode d v")
  obtain d2 t2 where d2: "decode d1 (concat rest) = (d2, t2)" by (cases "decode d1 (concat rest)")
  obtain cs r stop where dr: "ragStream_drain (buffer @ t1) = (cs, r, stop)"
    by (cases "ragStream_drain (buffer @ t1)")
  have app: "ragStream_drain (buffer @ t1 @ t2) =
      (if stop then (cs, r @ t2, True)
       else (case ragStream_drain (r @ t2) of (cs', r', s') \<Rightarrow> (cs @ cs', r', s')))"
    using drain_append [of "buffer @ t1" t2] dr by simp
  show ?case
  proof (cases stop)
    case True
    then show ?thesis using d1 d2 dr app by (simp add: decode_append)
  next
    case False
    with dr have "ragStream_drain r = ([], r, False)" by (auto dest: drain_rest)
    from Cons.IH [OF this, of d1] False show ?thesis
      using d1 d2 dr app by (simp add: decode_append split: prod.splits)
  qed
qed

lemma drain_Nil: "ragStream_drain [] = ([], [], False)"
  by (simp add: drain_None sep_def)

lemma drain_Some:
  assumes "indexOf buffer sep = Some idx"
  shows "ragStream_drain buffer =
      (if trim (take idx buffer) = [] then ragStream_drain (drop (idx + 2) buffer)
       else if startsWith (trim (take idx buffer)) marker then
         (if trim (drop 5 (trim (take idx buffer))) = DONE then ([], drop (idx + 2) buffer, True)
          else (case ragStream_drain (drop (idx + 2) buffer) of
                  (calls, r, stop) \<Rightarrow>
                    ((trim (drop 5 (trim (take idx buffer))), trim (take idx buffer)) # calls, r, stop)))
       else (case ragStream_drain (drop (idx + 2) buffer) of
               (calls, r, stop) \<Rightarrow>
                 ((trim (take idx buffer), trim (take idx buffer)) # calls, r, stop)))"
  by (subst ragStream_drain.simps) (simp only: assms option.case Let_def)

lemma read_drain:
  "ragStream_read chunks fin =
     (case ragStream_drain (snd (decode new_TextDecoder (concat chunks))) of
        (cs, r, stop) \<Rightarrow> (cs, if stop then None else fin))"
  unfolding ragStream_read_def
  by (simp add: loop_concat [OF drain_Nil] split: prod.splits)

lemma drain_frame:
  assumes pre: "ragStream_drain pre = (calls, [], False)"
    and frame: "indexOf (frame @ sep) sep = Some (length frame)"
  shows "ragStream_drain (pre @ frame @ sep @ post) =
      (if trim frame = [] then
         (case ragStream_drain post of (cs, r, stop) \<Rightarrow> (calls @ cs, r, stop))
       else if startsWith (trim frame) marker then
         (if trim (drop 5 (trim frame)) = DONE then (calls, post, True)
          else (case ragStream_drain post of
                  (cs, r, stop) \<Rightarrow>
                    (calls @ (trim (drop 5 (trim frame)), trim frame) # cs, r, stop)))
       else (case ragStream_drain post of
               (cs, r, stop) \<Rightarrow> (calls @ (trim frame, trim frame) # cs, r, stop)))"
proof -
  have ix: "indexOf (frame @ sep @ post) sep = Some (length frame)"
    using indexOf_append [OF frame, of post] by simp
  have dr: "drop (length frame + 2) (frame @ sep @ post) = post"
    by (simp add: sep_def)
  have "ragStream_drain (pre @ frame @ sep @ post) =
      (case ragStream_drain (frame @ sep @ post) of (cs', r', s') \<Rightarrow> (calls @ cs', r', s'))"
    using drain_append [of pre "frame @ sep @ post"] pre by simp
  then show ?thesis
    unfolding drain_Some [OF ix] dr by (simp split: prod.splits)
qed

lemmas stream_eval =
  ascii_bytes_def utf16_def ragStream_read_def new_TextDecoder_def utf8_step_def
  utf8_handler_def utf8_lead_def code_units_def ragStream_drain.simps sep_def marker_def
  DONE_def startsWith_def trim_def is_ws_def Let_def

text \<open>
  Claim C1. Whatever the stream's content, reading it as the chunks \<open>chunks\<close>, split at
  any byte positions (also inside a multi-byte character), makes the same calls of the
  callback, in the same order, as reading it as the single chunk \<open>concat chunks\<close>.
\<close>

theorem ragStream_chunk_split_invariant:
  "ragStream_read chunks fin = ragStream_read [concat chunks] fin"
  by (simp add: read_drain)

theorem ragStream_chunk_split_invariant_witness:
  "ragStream_read [[0x64, 0x61, 0x74, 0x61, 0x3A, 0x20, 0xC3], [0xA9, 0x0A], [0x0A, 0x78]] None
     = ragStream_read [[0x64, 0x61, 0x74, 0x61, 0x3A, 0x20, 0xC3, 0xA9, 0x0A, 0x0A, 0x78]] None
   \<and> ragStream_read [[0x64, 0x61, 0x74, 0x61, 0x3A, 0x20, 0xC3, 0xA9, 0x0A, 0x0A, 0x78]] None
     = ([([0xE9], utf16 ''data: '' @ [0xE9])], None)"
proof -
  have "ragStream_read [[0x64, 0x61, 0x74, 0x61, 0x3A, 0x20, 0xC3, 0xA9, 0x0A, 0x0A, 0x78]] None
     = ([([0xE9], utf16 ''data: '' @ [0xE9])], None)"
    by (simp add: stream_eval)
  then show ?thesis
    using ragStream_chunk_split_invariant
      [of "[[0x64, 0x61, 0x74, 0x61, 0x3A, 0x20, 0xC3], [0xA9, 0x0A], [0x0A, 0x78]]" None]
    by simp
qed

text \<open>
  Claim C2. When the decoded stream is \<open>pre @ frame @ sep @ post\<close>, where the decoder
  consumes \<open>pre\<close> entirely with the calls \<open>calls\<close> and without meeting the sentinel,
  and \<open>frame\<close> is a complete frame whose marker-stripped payload is \<open>[DONE]\<close>, then the
  calls made are exactly \<open>calls\<close>: nothing of \<open>post\<close> is delivered, whatever frames or
  chunks it holds, and no later read error surfaces. In particular the input
  \<open>data: Hello\n\ndata: [DONE]\n\n\<close> makes exactly one call, with payload \<open>Hello\<close>.
\<close>

theorem ragStream_stops_at_DONE:
  "(snd (decode new_TextDecoder (concat chunks)) = pre @ frame @ sep @ post \<and>
    ragStream_drain pre = (calls, [], False) \<and>
    indexOf (frame @ sep) sep = Some (length frame) \<and>
    startsWith (trim frame) marker \<and> trim (drop 5 (trim frame)) = DONE
    \<longrightarrow> ragStream_read chunks fin = (calls, None))
   \<and> ragStream_read
        [ascii_bytes (''data: Hello'' @ [CHR 0x0A, CHR 0x0A] @ ''data: [DONE]'' @ [CHR 0x0A, CHR 0x0A])]
        fin
       = ([(utf16 ''Hello'', utf16 ''data: Hello'')], None)"
proof (intro conjI impI)
  assume h: "snd (decode new_TextDecoder (concat chunks)) = pre @ frame @ sep @ post \<and>
    ragStream_drain pre = (calls, [], False) \<and>
    indexOf (frame @ sep) sep = Some (length frame) \<and>
    startsWith (trim frame) marker \<and> trim (drop 5 (trim frame)) = DONE"
  then have ne: "trim frame \<noteq> []"
    by (auto simp: startsWith_def marker_def utf16_def)
  from h have "ragStream_drain (pre @ frame @ sep @ post) = (calls, post, True)"
    using drain_frame [of pre calls frame post] ne by simp
  with h show "ragStream_read chunks fin = (calls, None)"
    by (simp add: read_drain)
next
  show "ragStream_read
        [ascii_bytes (''data: Hello'' @ [CHR 0x0A, CHR 0x0A] @ ''data: [DONE]'' @ [CHR 0x0A, CHR 0x0A])]
        fin
       = ([(utf16 ''Hello'', utf16 ''data: Hello'')], None)"
    by (simp add: stream_eval)
qed

theorem ragStream_stops_at_DONE_witness:
  "snd (decode new_TextDecoder (concat a_done_b))
     = (utf16 ''data: a'' @ sep) @ utf16 ''data: [DONE]'' @ sep @
       (utf16 ''data: b'' @ sep @ utf16 ''data: c'' @ sep) \<and>
   ragStream_drain (utf16 ''data: a'' @ sep) = ([(utf16 ''a'', utf16 ''data: a'')], [], False) \<and>
   indexOf (utf16 ''data: [DONE]'' @ sep) sep = Some (length (utf16 ''data: [DONE]'')) \<and>
   startsWith (trim (utf16 ''data: [DONE]'')) marker \<and>
   trim (drop 5 (trim (utf16 ''data: [DONE]''))) = DONE \<and>
   ragStream_read a_done_b (Some (Error (utf16 ''network error'')))
     = ([(utf16 ''a'', utf16 ''data: a'')], None)"
proof -
  have h1: "snd (decode new_TextDecoder (concat a_done_b))
     = (utf16 ''data: a'' @ sep) @ utf16 ''data: [DONE]'' @ sep @
       (utf16 ''data: b'' @ sep @ utf16 ''data: c'' @ sep)"
    by (simp add: a_done_b_def stream_eval)
  have h2: "ragStream_drain (utf16 ''data: a'' @ sep)
              = ([(utf16 ''a'', utf16 ''data: a'')], [], False)"
    by (simp add: stream_eval)
  have h3: "indexOf (utf16 ''data: [DONE]'' @ sep) sep = Some (length (utf16 ''data: [DONE]''))"
    by (simp add: stream_eval)
  have h4: "startsWith (trim (utf16 ''data: [DONE]'')) marker"
    by (simp add: stream_eval)
  have h5: "trim (drop 5 (trim (utf16 ''data: [DONE]''))) = DONE"
    by (simp add: stream_eval)
  from ragStream_stops_at_DONE
         [where chunks = a_done_b and pre = "utf16 ''data: a'' @ sep"
            and frame = "utf16 ''data: [DONE]''"
            and post = "utf16 ''data: b'' @ sep @ utf16 ''data: c'' @ sep"
            and calls = "[(utf16 ''a'', utf16 ''data: a'')]"
            and fin = "Some (Error (utf16 ''network error''))"]
       h1 h2 h3 h4 h5
  show ?thesis by blast
qed

text \<open>
  Claim C8, amended. When the decoded stream is \<open>pre @ frame @ sep @ post\<close>, where the
  decoder consumes \<open>pre\<close> entirely with the calls \<open>calls\<close> and without meeting the
  sentinel, and \<open>frame\<close> is a complete frame whose trimmed text is not empty and does not
  begin with the marker, then the next call delivers the trimmed text of the frame, with
  nothing else changed, and the calls for \<open>post\<close> follow.
\<close>

theorem ragStream_unmarked_frame:
  assumes "snd (decode new_TextDecoder (concat chunks)) = pre @ frame @ sep @ post"
    and "ragStream_drain pre = (calls, [], False)"
    and "indexOf (frame @ sep) sep = Some (length frame)"
    and "trim frame \<noteq> []" and "\<not> startsWith (trim frame) marker"
  shows "fst (ragStream_read chunks fin) =
           calls @ (trim frame, trim frame) # fst (ragStream_drain post)"
proof -
  have "ragStream_drain (pre @ frame @ sep @ post) =
          (case ragStream_drain post of
             (cs, r, stop) \<Rightarrow> (calls @ (trim frame, trim frame) # cs, r, stop))"
    using drain_frame [OF assms(2) assms(3), of post] assms(4) assms(5) by simp
  with assms(1) show ?thesis
    by (simp add: read_drain split: prod.splits)
qed

theorem ragStream_unmarked_frame_witness:
  "snd (decode new_TextDecoder
          (concat [ascii_bytes (''data: a'' @ [CHR 0x0A, CHR 0x0A] @ '' hi ''),
                   ascii_bytes ([CHR 0x0A, CHR 0x0A] @ ''data: b'' @ [CHR 0x0A, CHR 0x0A])]))
     = (utf16 ''data: a'' @ sep) @ utf16 '' hi '' @ sep @ (utf16 ''data: b'' @ sep) \<and>
   ragStream_drain (utf16 ''data: a'' @ sep) = ([(utf16 ''a'', utf16 ''data: a'')], [], False) \<and>
   indexOf (utf16 '' hi '' @ sep) sep = Some (length (utf16 '' hi '')) \<and>
   trim (utf16 '' hi '') = utf16 ''hi'' \<and>
   \<not> startsWith (trim (utf16 '' hi '')) marker \<and>
   fst (ragStream_read
          [ascii_bytes (''data: a'' @ [CHR 0x0A, CHR 0x0A] @ '' hi ''),
           ascii_bytes ([CHR 0x0A, CHR 0x0A] @ ''data: b'' @ [CHR 0x0A, CHR 0x0A])] None)
     = [(utf16 ''a'', utf16 ''data: a''), (utf16 ''hi'', utf16 ''hi''),
        (utf16 ''b'', utf16 ''data: b'')]"
proof -
  have h1: "snd (decode new_TextDecoder
          (concat [ascii_bytes (''data: a'' @ [CHR 0x0A, CHR 0x0A] @ '' hi ''),
                   ascii_bytes ([CHR 0x0A, CHR 0x0A] @ ''data: b'' @ [CHR 0x0A, CHR 0x0A])]))
     = (utf16 ''data: a'' @ sep) @ utf16 '' hi '' @ sep @ (utf16 ''data: b'' @ sep)"
    by (simp add: stream_eval)
  have h2: "ragStream_drain (utf16 ''data: a'' @ sep)
              = ([(utf16 ''a'', utf16 ''data: a'')], [], False)"
    by (simp add: stream_eval)
  have h3: "indexOf (utf16 '' hi '' @ sep) sep = Some (length (utf16 '' hi ''))"
    by (simp add: stream_eval)
  have h4: "trim (utf16 '' hi '') = utf16 ''hi''"
    by (simp add: stream_eval)
  have h4': "trim (utf16 '' hi '') \<noteq> []"
    by (simp add: stream_eval)
  have h5: "\<not> startsWith (trim (utf16 '' hi '')) marker"
    by (simp add: stream_eval)
  have p: "fst (ragStream_drain (utf16 ''data: b'' @ sep)) = [(utf16 ''b'', utf16 ''data: b'')]"
    by (simp add: stream_eval)
  have "fst (ragStream_read
          [ascii_bytes (''data: a'' @ [CHR 0x0A, CHR 0x0A] @ '' hi ''),
           ascii_bytes ([CHR 0x0A, CHR 0x0A] @ ''data: b'' @ [CHR 0x0A, CHR 0x0A])] None)
     = [(utf16 ''a'', utf16 ''data: a'')] @ (trim (utf16 '' hi ''), trim (utf16 '' hi '')) #
       fst (ragStream_drain (utf16 ''data: b'' @ sep))"
    by (rule ragStream_unmarked_frame [OF h1 h2 h3 h4' h5])
  then have "fst (ragStream_read
          [ascii_bytes (''data: a'' @ [CHR 0x0A, CHR 0x0A] @ '' hi ''),
           ascii_bytes ([CHR 0x0A, CHR 0x0A] @ ''data: b'' @ [CHR 0x0A, CHR 0x0A])] None)
     = [(utf16 ''a'', utf16 ''data: a''), (utf16 ''hi'', utf16 ''hi''),
        (utf16 ''b'', utf16 ''data: b'')]"
    unfolding p h4 by simp
  with h1 h2 h3 h4 h5 show ?thesis by blast
qed

text \<open>
  Claim C8 as stated fails: the complete frame \<open>" hi "\<close> does not begin with the marker
  and is delivered as \<open>"hi"\<close>; the complete frame \<open>" data: x"\<close> does not begin with the
  marker either and is delivered as \<open>"x"\<close>.
\<close>

theorem ragStream_alters_unmarked_frame:
  "\<not> startsWith (utf16 '' hi '') marker \<and>
   indexOf (utf16 '' hi '' @ sep) sep = Some (length (utf16 '' hi '')) \<and>
   ragStream_read [ascii_bytes ('' hi '' @ [CHR 0x0A, CHR 0x0A])] None
     = ([(utf16 ''hi'', utf16 ''hi'')], None) \<and>
   utf16 ''hi'' \<noteq> utf16 '' hi '' \<and>
   \<not> startsWith (utf16 '' data: x'') marker \<and>
   indexOf (utf16 '' data: x'' @ sep) sep = Some (length (utf16 '' data: x'')) \<and>
   ragStream_read [ascii_bytes ('' data: x'' @ [CHR 0x0A, CHR 0x0A])] None
     = ([(utf16 ''x'', utf16 ''data: x'')], None) \<and>
   utf16 ''x'' \<noteq> utf16 '' data: x''"
  by (simp add: stream_eval)

section \<open>Properties of the session\<close>

lemma logout_clears:
  "getToken (logout s) = None \<and> token (logout s) = None \<and> user (logout s) = None"
  by (simp add: logout_def setToken_def getToken_def truthy_def)

text \<open>
  Claim C3. When the call that the wrapper passes on resolves to a response with status
  401, then, whatever the call was, the wrapper resolves to that same response, and in the
  state it leaves the token store yields no token and the session's token and user are
  empty.
\<close>

theorem interceptor_401_logs_out:
  assumes "orig input = Inr res" and "status res = 401"
  shows "fst (intercepted_fetch orig input s) = Inr res \<and>
         getToken (snd (intercepted_fetch orig input s)) = None \<and>
         token (snd (intercepted_fetch orig input s)) = None \<and>
         user (snd (intercepted_fetch orig input s)) = None"
  using assms by (simp add: intercepted_fetch_def logout_clears)

theorem interceptor_401_logs_out_witness:
  "respond 401 (Parsed None (None :: auth_data option)) (login_request creds)
     = Inr unauthorized \<and>
   status unauthorized = 401 \<and>
   token signed_in = Some (utf16 ''tok0'') \<and>
   fst (intercepted_fetch (respond 401 (Parsed None None)) (login_request creds) signed_in)
     = Inr unauthorized \<and>
   getToken (snd (intercepted_fetch (respond 401 (Parsed None (None :: auth_data option)))
                    (login_request creds) signed_in)) = None \<and>
   token (snd (intercepted_fetch (respond 401 (Parsed None (None :: auth_data option)))
                 (login_request creds) signed_in)) = None \<and>
   user (snd (intercepted_fetch (respond 401 (Parsed None (None :: auth_data option)))
                (login_request creds) signed_in)) = None"
proof -
  have h1: "respond 401 (Parsed None (None :: auth_data option)) (login_request creds)
     = Inr unauthorized"
    by (simp add: respond_def unauthorized_def)
  have h2: "status unauthorized = 401"
    by (simp add: unauthorized_def)
  have h3: "token signed_in = Some (utf16 ''tok0'')"
    by (simp add: signed_in_def)
  from interceptor_401_logs_out
         [where orig = "respond 401 (Parsed None (None :: auth_data option))"
            and input = "login_request creds" and res = unauthorized and s = signed_in,
          OF h1 h2] h1 h2 h3
  show ?thesis by blast
qed

lemma api_login_request:
  "api_login fetch params s =
     (case fetch (login_request params) s of
        (Inl e, s1) \<Rightarrow> (Inl e, s1)
      | (Inr res, s1) \<Rightarrow>
          (case handleJsonResponse res of
             Inl e \<Rightarrow> (Inl e, s1)
           | Inr None \<Rightarrow> (Inl null_error, s1)
           | Inr (Some data) \<Rightarrow> (Inr data, setToken (access_token data) s1)))"
  by (simp add: api_login_def login_request_def)

lemma login_never_throws: "\<exists>b. fst (login orig args s) = Inr b"
  by (auto simp: login_def split: prod.splits sum.splits)

lemma login_transport:
  "orig (login_request args) = Inl e \<Longrightarrow> login orig args s = (Inr False, s)"
  by (simp add: login_def api_login_request intercepted_fetch_def)

lemma login_rejected:
  assumes "orig (login_request args) = Inr res"
    and "\<not> ok res \<or> json res = Throws m \<or> json res = Parsed d None"
  shows "login orig args s = (Inr False, if status res = 401 then logout s else s)"
  using assms
  by (auto simp: login_def api_login_request intercepted_fetch_def handleJsonResponse_def
           split: parsed.splits option.splits)

lemma login_accepted:
  assumes "orig (login_request args) = Inr res" and "ok res"
    and "json res = Parsed d (Some data)" and "access_token data = Some t" and "t \<noteq> []"
  shows "login orig args s =
           (Inr True, (setToken (Some t) s)\<lparr>token := Some t, user := data_user data\<rparr>)"
proof -
  from \<open>ok res\<close> have "status res \<noteq> 401" by (auto simp: ok_def)
  with assms show ?thesis
    by (simp add: login_def api_login_request intercepted_fetch_def handleJsonResponse_def
                  truthy_def)
qed

text \<open>
  Claim C6, amended. \<open>login\<close> never rejects. When the transport fails, or the response
  has a status other than 401 and is not a success, cannot be parsed or is \<open>null\<close>,
  \<open>login\<close> gives false and leaves the state as it was. When the response has status 401,
  \<open>login\<close> gives false and the state is the one \<open>logout\<close> leaves. When the response is a
  success with a non-empty access token, \<open>login\<close> gives true, the session's token is that
  token, the user is the one returned, and the token store yields that token when the
  storage can be reached.
\<close>

theorem login_contract:
  "(\<exists>b. fst (login orig args s) = Inr b) \<and>
   (orig (login_request args) = Inl e \<longrightarrow> login orig args s = (Inr False, s)) \<and>
   (orig (login_request args) = Inr res \<and> status res \<noteq> 401 \<and>
      (\<not> ok res \<or> json res = Throws m \<or> json res = Parsed d None)
    \<longrightarrow> login orig args s = (Inr False, s)) \<and>
   (orig (login_request args) = Inr res \<and> status res = 401
    \<longrightarrow> login orig args s = (Inr False, logout s)) \<and>
   (orig (login_request args) = Inr res \<and> ok res \<and> json res = Parsed d (Some data) \<and>
      access_token data = Some t \<and> t \<noteq> []
    \<longrightarrow> fst (login orig args s) = Inr True \<and>
        token (snd (login orig args s)) = Some t \<and>
        user (snd (login orig args s)) = data_user data \<and>
        getToken (snd (login orig args s)) = (if storage_ok s then Some t else None))"
proof (intro conjI impI)
  show "\<exists>b. fst (login orig args s) = Inr b" by (rule login_never_throws)
next
  assume "orig (login_request args) = Inl e"
  then show "login orig args s = (Inr False, s)" by (rule login_transport)
next
  assume h: "orig (login_request args) = Inr res \<and> status res \<noteq> 401 \<and>
      (\<not> ok res \<or> json res = Throws m \<or> json res = Parsed d None)"
  then show "login orig args s = (Inr False, s)"
    using login_rejected [of orig args res m d s] by simp
next
  assume h: "orig (login_request args) = Inr res \<and> status res = 401"
  then have "\<not> ok res" by (simp add: ok_def)
  with h show "login orig args s = (Inr False, logout s)"
    using login_rejected [of orig args res m d s] by simp
next
  assume h: "orig (login_request args) = Inr res \<and> ok res \<and> json res = Parsed d (Some data) \<and>
      access_token data = Some t \<and> t \<noteq> []"
  then have L: "login orig args s =
           (Inr True, (setToken (Some t) s)\<lparr>token := Some t, user := data_user data\<rparr>)"
    using login_accepted [of orig args res d data t s] by simp
  show "fst (login orig args s) = Inr True" by (simp add: L)
  show "token (snd (login orig args s)) = Some t" by (simp add: L)
  show "user (snd (login orig args s)) = data_user data" by (simp add: L)
  show "getToken (snd (login orig args s)) = (if storage_ok s then Some t else None)"
    using h by (simp add: L getToken_def setToken_def truthy_def)
qed


theorem login_contract_witness:
  "(\<lambda>i. Inl (Error (utf16 ''Failed to fetch'')) :: error + auth_data response) (login_request creds)
      = Inl (Error (utf16 ''Failed to fetch'')) \<and>
   login (\<lambda>i. Inl (Error (utf16 ''Failed to fetch''))) creds signed_in = (Inr False, signed_in) \<and>
   login (respond 422 (Parsed (Some (utf16 ''Invalid credentials'')) None)) creds signed_in
      = (Inr False, signed_in) \<and>
   login (respond 401 (Parsed None None)) creds signed_in = (Inr False, logout signed_in) \<and>
   fst (login (respond 200 (Parsed None (Some tok1_data))) creds signed_out) = Inr True \<and>
   token (snd (login (respond 200 (Parsed None (Some tok1_data))) creds signed_out))
      = Some (utf16 ''tok1'') \<and>
   user (snd (login (respond 200 (Parsed None (Some tok1_data))) creds signed_out))
      = Some user1 \<and>
   getToken (snd (login (respond 200 (Parsed None (Some tok1_data))) creds signed_out))
      = Some (utf16 ''tok1'')"
proof -
  have a: "login (\<lambda>i. Inl (Error (utf16 ''Failed to fetch''))) creds signed_in
             = (Inr False, signed_in)"
    using login_contract
      [where orig = "\<lambda>i. Inl (Error (utf16 ''Failed to fetch''))" and args = creds
         and s = signed_in and e = "Error (utf16 ''Failed to fetch'')"]
    by simp
  have b: "login (respond 422 (Parsed (Some (utf16 ''Invalid credentials'')) None)) creds signed_in
             = (Inr False, signed_in)"
    using login_contract
      [where orig = "respond 422 (Parsed (Some (utf16 ''Invalid credentials'')) None)"
         and args = creds and s = signed_in
         and res = "\<lparr>status = 422, statusText = [],
                       json = Parsed (Some (utf16 ''Invalid credentials'')) None, body = None\<rparr>"]
    by (simp add: respond_def ok_def)
  have c: "login (respond 401 (Parsed None None)) creds signed_in = (Inr False, logout signed_in)"
    using login_contract
      [where orig = "respond 401 (Parsed None None)" and args = creds and s = signed_in
         and res = unauthorized]
    by (simp add: respond_def unauthorized_def)
  have d: "fst (login (respond 200 (Parsed None (Some tok1_data))) creds signed_out) = Inr True \<and>
   token (snd (login (respond 200 (Parsed None (Some tok1_data))) creds signed_out))
      = Some (utf16 ''tok1'') \<and>
   user (snd (login (respond 200 (Parsed None (Some tok1_data))) creds signed_out))
      = Some user1 \<and>
   getToken (snd (login (respond 200 (Parsed None (Some tok1_data))) creds signed_out))
      = Some (utf16 ''tok1'')"
    using login_contract
      [where orig = "respond 200 (Parsed None (Some tok1_data))" and args = creds
         and s = signed_out
         and res = "\<lparr>status = 200, statusText = [], json = Parsed None (Some tok1_data),
                       body = None\<rparr>"
         and d = None and data = tok1_data and t = "utf16 ''tok1''"]
    by (simp add: respond_def ok_def tok1_data_def signed_out_def utf16_def)
  from a b c d show ?thesis by simp
qed

text \<open>
  Claim C6 as stated fails: a login that the server answers with 401 gives false, and
  the token that was stored before the attempt is gone after it.
\<close>

theorem login_401_clears_token:
  "fst (login (respond 401 (Parsed None None)) creds signed_in) = Inr False \<and>
   getToken signed_in = Some (utf16 ''tok0'') \<and>
   token signed_in = Some (utf16 ''tok0'') \<and>
   getToken (snd (login (respond 401 (Parsed None None)) creds signed_in)) = None \<and>
   token (snd (login (respond 401 (Parsed None None)) creds signed_in)) = None"
  by (simp add: login_def api_login_def intercepted_fetch_def respond_def
                handleJsonResponse_def ok_def logout_def setToken_def getToken_def
                truthy_def signed_in_def)

text \<open>
  A success response without an access token: \<open>login\<close> gives false, the session's token
  stays, and the entry of the token store is removed by \<open>setToken(undefined)\<close>.
\<close>

lemma login_without_token_clears_store:
  "login (respond 200 (Parsed None (Some \<lparr>access_token = None, data_user = None\<rparr>)))
         creds signed_in
     = (Inr False, signed_in\<lparr>stored := None\<rparr>)"
  by (simp add: login_def api_login_def intercepted_fetch_def respond_def
                handleJsonResponse_def ok_def setToken_def truthy_def signed_in_def)

section \<open>Properties of the chat page\<close>

lemma dropWhile_blank: "list_all is_ws q \<Longrightarrow> dropWhile is_ws q = []"
  by (induction q) auto

lemma trim_blank: "list_all is_ws q \<Longrightarrow> trim q = []"
  by (simp add: trim_def dropWhile_blank)

lemmas send_eval =
  send_def send_begin_def disableSubmit_def on_settle_def on_result_def on_chunk_def
  on_error_def time_or_def empty_meta_def or_else_def truthy_def Let_def

lemmas chat_eval =
  hydrate_def hydrate_push_def q_response_text_def q_generated_at_def q_context_chunks_def
  or_else_def truthy_def utf16_def Let_def

text \<open>
  Claim C4. While a send is in flight (\<open>loading\<close> is set), \<open>send\<close> leaves the whole state
  as it is, the message list and the exchange in flight included, and calls neither
  \<open>ragStream\<close> nor \<open>ragQuery\<close>.
\<close>

theorem send_while_busy_is_noop:
  "loading s \<Longrightarrow> send a e s = (Inr s, [])"
  by (simp add: send_def disableSubmit_def)

theorem send_while_busy_is_noop_witness:
  "loading busy_chat \<and> length (messages busy_chat) = 2 \<and>
   send api1 env1 busy_chat = (Inr busy_chat, [])"
proof -
  have h: "loading busy_chat"
    by (simp add: busy_chat_def send_begin_def Let_def)
  have m: "length (messages busy_chat) = 2"
    by (simp add: busy_chat_def send_begin_def Let_def idle_chat_def)
  from send_while_busy_is_noop [OF h, of api1 env1] h m show ?thesis by simp
qed

text \<open>
  Claim C10. When the input holds nothing but white space (or nothing at all), \<open>send\<close>
  leaves the whole state as it is, so that no message is appended and \<open>loading\<close> stays
  unset in an idle state, and it calls neither \<open>ragStream\<close> nor \<open>ragQuery\<close>.
\<close>

theorem send_blank_query_is_noop:
  "list_all is_ws (query s) \<Longrightarrow> send a e s = (Inr s, [])"
  by (simp add: send_def disableSubmit_def trim_blank)

theorem send_blank_query_is_noop_witness:
  "list_all is_ws (query blank_chat) \<and> \<not> loading blank_chat \<and>
   send api1 env1 blank_chat = (Inr blank_chat, [])"
proof -
  have h: "list_all is_ws (query blank_chat)"
    by (simp add: blank_chat_def is_ws_def)
  have l: "\<not> loading blank_chat"
    by (simp add: blank_chat_def idle_chat_def)
  from send_blank_query_is_noop [OF h, of api1 env1] h l show ?thesis by simp
qed

lemma hydrate_push_record: "hydrate_push now hydrated q = hydrated @ record_messages now q"
  by (simp add: hydrate_push_def record_messages_def Let_def truthy_def or_else_def
           split: option.splits)

lemma foldl_hydrate_push:
  "foldl (hydrate_push now) acc items = acc @ concat (map (record_messages now) items)"
  by (induction items arbitrary: acc) (simp_all add: hydrate_push_record)

lemma hydrate_concat: "hydrate now qs = concat (map (record_messages now) (rev qs))"
  by (simp add: hydrate_def foldl_hydrate_push)

lemma length_record_messages:
  "length (concat (map (record_messages now) xs)) =
     length xs + length (filter (\<lambda>q. truthy (q_response_text q)) xs)"
  by (induction xs) (simp_all add: record_messages_def)

text \<open>
  Claim C5, amended. Hydration yields, oldest record first, the messages of each record:
  its user message, immediately followed by its assistant message when the record has a
  non-empty response text. For N records of which M have a non-empty response text these
  are N + M messages.
\<close>

theorem hydrate_counts:
  "hydrate now qs = concat (map (record_messages now) (rev qs)) \<and>
   length (hydrate now qs) = length qs + length (filter (\<lambda>q. truthy (q_response_text q)) qs)"
proof
  show "hydrate now qs = concat (map (record_messages now) (rev qs))"
    by (rule hydrate_concat)
  have "length (filter (\<lambda>q. truthy (q_response_text q)) (rev qs)) =
        length (filter (\<lambda>q. truthy (q_response_text q)) qs)"
    by (simp flip: rev_filter)
  then show "length (hydrate now qs) =
      length qs + length (filter (\<lambda>q. truthy (q_response_text q)) qs)"
    using length_record_messages [of now "rev qs"] by (simp add: hydrate_concat)
qed

theorem hydrate_counts_witness:
  "hydrate (utf16 ''now'') [pending, answered] =
     [\<lparr>msg_id = utf16 ''7:u'', role = User, msg_text = utf16 ''why'',
       createdAt = utf16 ''d1'', meta = None\<rparr>,
      \<lparr>msg_id = utf16 ''7:a'', role = Assistant, msg_text = utf16 ''because'',
       createdAt = utf16 ''d2'',
       meta = Some \<lparr>processing_time_ms = Some 150, total_tokens = Some 42,
                    sources = Some []\<rparr>\<rparr>,
      \<lparr>msg_id = utf16 ''8:u'', role = User, msg_text = utf16 ''how'',
       createdAt = utf16 ''d3'', meta = None\<rparr>] \<and>
   length (hydrate (utf16 ''now'') [pending, answered]) = 2 + 1"
proof -
  have f: "length (filter (\<lambda>q. truthy (q_response_text q)) [pending, answered]) = 1"
    by (simp add: pending_def answered_def chat_eval)
  have "length (hydrate (utf16 ''now'') [pending, answered]) =
          length [pending, answered] +
          length (filter (\<lambda>q. truthy (q_response_text q)) [pending, answered])"
    using hydrate_counts [of "utf16 ''now''" "[pending, answered]"] by (rule conjunct2)
  then have "length (hydrate (utf16 ''now'') [pending, answered]) = 2 + 1"
    unfolding f by simp
  moreover have "hydrate (utf16 ''now'') [pending, answered] =
     [\<lparr>msg_id = utf16 ''7:u'', role = User, msg_text = utf16 ''why'',
       createdAt = utf16 ''d1'', meta = None\<rparr>,
      \<lparr>msg_id = utf16 ''7:a'', role = Assistant, msg_text = utf16 ''because'',
       createdAt = utf16 ''d2'',
       meta = Some \<lparr>processing_time_ms = Some 150, total_tokens = Some 42,
                    sources = Some []\<rparr>\<rparr>,
      \<lparr>msg_id = utf16 ''8:u'', role = User, msg_text = utf16 ''how'',
       createdAt = utf16 ''d3'', meta = None\<rparr>]"
    by (simp add: pending_def answered_def chat_eval)
  ultimately show ?thesis by simp
qed

text \<open>
  Claim C5 as stated fails: a record that carries a response payload whose text is empty
  contributes its user message only, so that N = 1 and M = 1 give one message.
\<close>

theorem hydrate_skips_empty_response:
  "response empty_answer \<noteq> None \<and>
   hydrate (utf16 ''now'') [empty_answer] =
     [\<lparr>msg_id = utf16 ''9:u'', role = User, msg_text = utf16 ''who'',
       createdAt = utf16 ''d4'', meta = None\<rparr>] \<and>
   length (hydrate (utf16 ''now'') [empty_answer]) \<noteq> 1 + 1"
  by (simp add: empty_answer_def chat_eval)

lemma record_messages_ids: "map msg_id (record_messages now q) = record_ids q"
  by (simp add: record_messages_def record_ids_def)

lemma hydrate_ids: "map msg_id (hydrate now qs) = concat (map record_ids (rev qs))"
  by (simp add: hydrate_concat map_concat comp_def record_messages_ids)

lemma record_messages_view:
  "map undated_view (record_messages now1 q) = map undated_view (record_messages now2 q)"
  by (simp add: record_messages_def undated_view_def)

lemma hydrate_view:
  "map undated_view (hydrate now1 qs) = map undated_view (hydrate now2 qs)"
proof -
  have "(\<lambda>q. map undated_view (record_messages now1 q)) =
        (\<lambda>q. map undated_view (record_messages now2 q))"
    by (rule ext) (rule record_messages_view)
  then show ?thesis
    by (simp add: hydrate_concat map_concat comp_def)
qed

lemma record_messages_dated:
  "truthy (created_at q) \<Longrightarrow> record_messages now1 q = record_messages now2 q"
  by (auto simp: record_messages_def or_else_def truthy_def split: option.splits)

lemma hydrate_dated:
  assumes "list_all (\<lambda>q. truthy (created_at q)) qs"
  shows "hydrate now1 qs = hydrate now2 qs"
proof -
  have "map (record_messages now1) (rev qs) = map (record_messages now2) (rev qs)"
  proof (rule map_cong [OF refl])
    fix q
    assume "q \<in> set (rev qs)"
    with assms have "truthy (created_at q)" by (simp add: list_all_iff)
    then show "record_messages now1 q = record_messages now2 q"
      by (rule record_messages_dated)
  qed
  then show ?thesis by (simp only: hydrate_concat)
qed

lemma hydration_again:
  assumes "hydrate now2 qs = hydrate now1 qs"
  shows "hydration (Inr qs) now2 (hydration (Inr qs) now1 s) = hydration (Inr qs) now1 s"
  using assms by (simp add: hydration_def Let_def)

text \<open>
  Claim C7, amended. The ids of the hydrated messages are the record ids with the suffix
  \<open>:u\<close> or \<open>:a\<close>, and two hydrations of the same records agree on id, role, text and
  metadata of every message, whatever the clock shows. When every record carries its
  creation time, the two hydrations yield the same messages, and hydrating again leaves
  the state that the first hydration left.
\<close>

theorem hydrate_deterministic:
  "map msg_id (hydrate now1 qs) = concat (map record_ids (rev qs)) \<and>
   map undated_view (hydrate now1 qs) = map undated_view (hydrate now2 qs) \<and>
   (list_all (\<lambda>q. truthy (created_at q)) qs \<longrightarrow>
      hydrate now1 qs = hydrate now2 qs \<and>
      hydration (Inr qs) now2 (hydration (Inr qs) now1 s) = hydration (Inr qs) now1 s)"
proof (intro conjI impI)
  show "map msg_id (hydrate now1 qs) = concat (map record_ids (rev qs))"
    by (rule hydrate_ids)
  show "map undated_view (hydrate now1 qs) = map undated_view (hydrate now2 qs)"
    by (rule hydrate_view)
next
  assume h: "list_all (\<lambda>q. truthy (created_at q)) qs"
  then show eq: "hydrate now1 qs = hydrate now2 qs"
    by (rule hydrate_dated)
  from eq show "hydration (Inr qs) now2 (hydration (Inr qs) now1 s) = hydration (Inr qs) now1 s"
    using hydration_again [of now2 qs now1 s] by simp
qed

theorem hydrate_deterministic_witness:
  "list_all (\<lambda>q. truthy (created_at q)) [pending, answered] \<and>
   hydrate (utf16 ''t1'') [pending, answered] = hydrate (utf16 ''t2'') [pending, answered] \<and>
   map msg_id (hydrate (utf16 ''t1'') [pending, answered])
     = [utf16 ''7:u'', utf16 ''7:a'', utf16 ''8:u''] \<and>
   hydration (Inr [pending, answered]) (utf16 ''t2'')
       (hydration (Inr [pending, answered]) (utf16 ''t1'') idle_chat)
     = hydration (Inr [pending, answered]) (utf16 ''t1'') idle_chat"
proof -
  have h: "list_all (\<lambda>q. truthy (created_at q)) [pending, answered]"
    by (simp add: pending_def answered_def truthy_def utf16_def)
  have i: "concat (map record_ids (rev [pending, answered]))
             = [utf16 ''7:u'', utf16 ''7:a'', utf16 ''8:u'']"
    by (simp add: record_ids_def pending_def answered_def chat_eval)
  note T = hydrate_deterministic
         [where ?now1.0 = "utf16 ''t1''" and ?now2.0 = "utf16 ''t2''"
            and qs = "[pending, answered]" and s = idle_chat]
  from T have "map msg_id (hydrate (utf16 ''t1'') [pending, answered])
                 = concat (map record_ids (rev [pending, answered]))"
    by (rule conjunct1)
  then have a: "map msg_id (hydrate (utf16 ''t1'') [pending, answered])
                  = [utf16 ''7:u'', utf16 ''7:a'', utf16 ''8:u'']"
    unfolding i .
  from T h have b: "hydrate (utf16 ''t1'') [pending, answered]
                      = hydrate (utf16 ''t2'') [pending, answered] \<and>
     hydration (Inr [pending, answered]) (utf16 ''t2'')
         (hydration (Inr [pending, answered]) (utf16 ''t1'') idle_chat)
       = hydration (Inr [pending, answered]) (utf16 ''t1'') idle_chat"
    by blast
  from h a b show ?thesis by blast
qed

text \<open>
  Claim C7 as stated fails: a record without a creation time is stamped with the time of
  the hydration, so two hydrations of the same record at different times differ.
\<close>

theorem hydrate_undated_follows_clock:
  "hydrate (utf16 ''t1'') [undated] \<noteq> hydrate (utf16 ''t2'') [undated] \<and>
   map createdAt (hydrate (utf16 ''t1'') [undated]) = [utf16 ''t1''] \<and>
   map createdAt (hydrate (utf16 ''t2'') [undated]) = [utf16 ''t2'']"
  by (simp add: undated_def chat_eval)

lemma foldl_on_chunk:
  "foldl (\<lambda>prev c. on_chunk aid (fst c) prev) ms calls =
     map (\<lambda>msg. if msg_id msg = aid
                 then msg\<lparr>msg_text := msg_text msg @ concat (map fst calls)\<rparr> else msg) ms"
proof (induction calls arbitrary: ms)
  case Nil
  show ?case by (simp add: map_idI)
next
  case (Cons c calls)
  show ?case
    unfolding foldl_Cons Cons.IH
    by (simp add: on_chunk_def comp_def cong: if_cong)
qed

lemma send_query_settles:
  assumes "\<not> disableSubmit s" and "\<not> stream s"
    and "ragQuery_api a (snd (send_begin e s)) = Inr (Some res)"
  shows "fst (send a e s) =
           Inr ((fst (send_begin e s))
                  \<lparr>messages := on_settle (uuid_assistant e) (elapsed e)
                                 (on_result (uuid_assistant e) res
                                    (messages (fst (send_begin e s)))),
                   loading := False\<rparr>)"
proof -
  obtain s1 p where "send_begin e s = (s1, p)" by (cases "send_begin e s")
  with assms show ?thesis by (simp add: send_def)
qed

lemma send_stream_settles:
  assumes "\<not> disableSubmit s" and "stream s"
    and "ragStream_api a (snd (send_begin e s)) = (calls, None)"
  shows "fst (send a e s) =
           Inr ((fst (send_begin e s))
                  \<lparr>messages := on_settle (uuid_assistant e) (elapsed e)
                                 (foldl (\<lambda>prev c. on_chunk (uuid_assistant e) (fst c) prev)
                                    (messages (fst (send_begin e s))) calls),
                   loading := False\<rparr>)"
proof -
  obtain s1 p where "send_begin e s = (s1, p)" by (cases "send_begin e s")
  with assms show ?thesis by (simp add: send_def Let_def)
qed

lemma messages_send_begin:
  "messages (fst (send_begin e s)) =
     messages s @
       [\<lparr>msg_id = uuid_user e, role = User, msg_text = query s, createdAt = now_user e,
         meta = None\<rparr>,
        \<lparr>msg_id = uuid_assistant e, role = Assistant, msg_text = [],
         createdAt = now_assistant e, meta = Some empty_meta\<rparr>]"
  by (simp add: send_begin_def Let_def)

text \<open>
  Claim C9, amended. A send that starts and settles with success leaves the placeholder
  as the last message. Without streaming, its metadata hold the processing time the server
  reported when that is present and not zero, the elapsed time measured by the client
  otherwise, and the token count and context documents of the response. With streaming,
  its text is the concatenation of the payloads and its metadata hold the elapsed time only.
\<close>

theorem send_settles_metadata:
  assumes "\<not> disableSubmit s"
  shows
   "(\<not> stream s \<and> ragQuery_api a (snd (send_begin e s)) = Inr (Some res) \<longrightarrow>
       (\<exists>s'. fst (send a e s) = Inr s' \<and>
             msg_id (last (messages s')) = uuid_assistant e \<and>
             meta (last (messages s')) =
               Some \<lparr>processing_time_ms =
                       Some (server_time_or (res_processing_time_ms res) (elapsed e)),
                     total_tokens = res_total_tokens res,
                     sources = context_documents res\<rparr>)) \<and>
    (stream s \<and> ragStream_api a (snd (send_begin e s)) = (calls, None) \<longrightarrow>
       (\<exists>s'. fst (send a e s) = Inr s' \<and>
             msg_id (last (messages s')) = uuid_assistant e \<and>
             msg_text (last (messages s')) = concat (map fst calls) \<and>
             meta (last (messages s')) =
               Some \<lparr>processing_time_ms = Some (elapsed e),
                     total_tokens = None, sources = None\<rparr>))"
proof (intro conjI impI)
  assume h: "\<not> stream s \<and> ragQuery_api a (snd (send_begin e s)) = Inr (Some res)"
  show "\<exists>s'. fst (send a e s) = Inr s' \<and>
             msg_id (last (messages s')) = uuid_assistant e \<and>
             meta (last (messages s')) =
               Some \<lparr>processing_time_ms =
                       Some (server_time_or (res_processing_time_ms res) (elapsed e)),
                     total_tokens = res_total_tokens res,
                     sources = context_documents res\<rparr>"
    unfolding send_query_settles [OF assms conjunct1 [OF h] conjunct2 [OF h]]
    by (simp add: messages_send_begin on_settle_def on_result_def time_or_def
                  server_time_or_def Let_def split: option.splits)
next
  assume h: "stream s \<and> ragStream_api a (snd (send_begin e s)) = (calls, None)"
  show "\<exists>s'. fst (send a e s) = Inr s' \<and>
             msg_id (last (messages s')) = uuid_assistant e \<and>
             msg_text (last (messages s')) = concat (map fst calls) \<and>
             meta (last (messages s')) =
               Some \<lparr>processing_time_ms = Some (elapsed e),
                     total_tokens = None, sources = None\<rparr>"
    unfolding send_stream_settles [OF assms conjunct1 [OF h] conjunct2 [OF h]]
    by (simp add: messages_send_begin foldl_on_chunk on_settle_def time_or_def
                  empty_meta_def Let_def)
qed

lemma foo_bar_calls:
  "ragStream_read foo_bar None =
     ([(utf16 ''foo'', utf16 ''data: foo''), (utf16 ''bar'', utf16 ''data: bar'')], None)"
  by (simp add: foo_bar_def stream_eval)

theorem send_settles_metadata_witness:
  "\<not> disableSubmit idle_chat \<and> \<not> stream idle_chat \<and>
   ragQuery_api api1 (snd (send_begin env1 idle_chat)) = Inr (Some result1) \<and>
   (\<exists>s'. fst (send api1 env1 idle_chat) = Inr s' \<and>
         msg_id (last (messages s')) = utf16 ''id-a'' \<and>
         meta (last (messages s')) =
           Some \<lparr>processing_time_ms = Some 150, total_tokens = Some 42,
                 sources = Some []\<rparr>) \<and>
   \<not> disableSubmit streaming_chat \<and> stream streaming_chat \<and>
   ragStream_api api1 (snd (send_begin env1 streaming_chat))
     = ([(utf16 ''foo'', utf16 ''data: foo''), (utf16 ''bar'', utf16 ''data: bar'')], None) \<and>
   (\<exists>s'. fst (send api1 env1 streaming_chat) = Inr s' \<and>
         msg_id (last (messages s')) = utf16 ''id-a'' \<and>
         msg_text (last (messages s')) = utf16 ''foobar'' \<and>
         meta (last (messages s')) =
           Some \<lparr>processing_time_ms = Some 5, total_tokens = None, sources = None\<rparr>)"
proof -
  have d1: "\<not> disableSubmit idle_chat"
    by (simp add: disableSubmit_def idle_chat_def trim_def utf16_def is_ws_def)
  have n1: "\<not> stream idle_chat"
    by (simp add: idle_chat_def)
  have q1: "ragQuery_api api1 (snd (send_begin env1 idle_chat)) = Inr (Some result1)"
    by (simp add: api1_def)
  have d2: "\<not> disableSubmit streaming_chat"
    by (simp add: disableSubmit_def streaming_chat_def idle_chat_def trim_def utf16_def
                  is_ws_def)
  have n2: "stream streaming_chat"
    by (simp add: streaming_chat_def)
  have q2: "ragStream_api api1 (snd (send_begin env1 streaming_chat))
     = ([(utf16 ''foo'', utf16 ''data: foo''), (utf16 ''bar'', utf16 ''data: bar'')], None)"
    by (simp add: api1_def foo_bar_calls)
  have a: "\<exists>s'. fst (send api1 env1 idle_chat) = Inr s' \<and>
         msg_id (last (messages s')) = utf16 ''id-a'' \<and>
         meta (last (messages s')) =
           Some \<lparr>processing_time_ms = Some 150, total_tokens = Some 42,
                 sources = Some []\<rparr>"
    using send_settles_metadata
            [OF d1, where a = api1 and e = env1 and res = result1] n1 q1
    by (simp add: server_time_or_def result1_def env1_def)
  have b: "\<exists>s'. fst (send api1 env1 streaming_chat) = Inr s' \<and>
         msg_id (last (messages s')) = utf16 ''id-a'' \<and>
         msg_text (last (messages s')) = utf16 ''foobar'' \<and>
         meta (last (messages s')) =
           Some \<lparr>processing_time_ms = Some 5, total_tokens = None, sources = None\<rparr>"
    using send_settles_metadata
            [OF d2, where a = api1 and e = env1
               and calls = "[(utf16 ''foo'', utf16 ''data: foo''),
                             (utf16 ''bar'', utf16 ''data: bar'')]"] n2 q2
    by (simp add: env1_def utf16_def)
  from d1 n1 q1 a d2 n2 q2 b show ?thesis by blast
qed

text \<open>
  Claim C9 as stated fails: when the server reports a processing time of zero, the
  metadata record the elapsed time measured by the client.
\<close>

theorem send_zero_server_time:
  "ragQuery_api api0 (snd (send_begin env1 idle_chat)) = Inr (Some result0) \<and>
   res_processing_time_ms result0 = Some 0 \<and>
   fst (send api0 env1 idle_chat) =
     Inr (idle_chat
            \<lparr>messages :=
               [\<lparr>msg_id = utf16 ''id-u'', role = User, msg_text = utf16 ''hi'',
                 createdAt = utf16 ''t1'', meta = None\<rparr>,
                \<lparr>msg_id = utf16 ''id-a'', role = Assistant, msg_text = utf16 ''ok'',
                 createdAt = utf16 ''t2'',
                 meta = Some \<lparr>processing_time_ms = Some 5, total_tokens = Some 42,
                              sources = Some []\<rparr>\<rparr>],
             query := [], loading := False\<rparr>)"
  by (simp add: api0_def result0_def env1_def idle_chat_def send_eval trim_def is_ws_def
                utf16_def)


end
